theory Spec2Isabelle
  imports Main "HOL-Library.AList"
begin

section \<open>JavaScript values\<close>

text \<open>
  The column editor (\<^verbatim>\<open>edit.tsx\<close>) works on plain JSON-like data: columns are objects whose
  fields are read and written through computed keys and object spreads, and the difference
  between two column lists is computed by a generic object differ. The values are therefore
  modelled untyped, as the code treats them. An object is an association list in creation
  order; numbers are integers (the editor never computes with fractions).
\<close>

datatype jsval =
    Undefined
  | Null
  | Bool bool
  | Num int
  | Str string
  | Arr "jsval list"
  | Obj "(string \<times> jsval) list"

datatype error = TypeError

type_synonym props = "(string \<times> jsval) list"

subsection \<open>Decimal keys\<close>

definition digit_char :: "nat \<Rightarrow> char" where
  "digit_char d = ''0123456789'' ! d"

definition digit_val :: "char \<Rightarrow> nat option" where
  "digit_val c = map_of (zip ''0123456789'' [0 ..< 10]) c"

text \<open>The key under which an array keeps its element \<open>n\<close>: the decimal numeral of \<open>n\<close>.\<close>

fun index_key :: "nat \<Rightarrow> string" where
  "index_key n = (if n < 10 then [digit_char n] else index_key (n div 10) @ [digit_char (n mod 10)])"

declare index_key.simps [simp del]

text \<open>
  \<^verbatim>\<open>parseInt(s, 10)\<close>: leading white space is skipped, a sign is accepted, the longest run of
  decimal digits is read; with no digit the result is \<^verbatim>\<open>NaN\<close>, here \<open>None\<close>.
\<close>

definition is_space :: "char \<Rightarrow> bool" where
  "is_space c = (c \<in> set [CHR '' '', CHR 0x09, CHR 0x0A, CHR 0x0B, CHR 0x0C, CHR 0x0D])"

definition is_digit :: "char \<Rightarrow> bool" where
  "is_digit c = (digit_val c \<noteq> None)"

definition digits_value :: "string \<Rightarrow> nat" where
  "digits_value ds = foldl (\<lambda>a c. case digit_val c of Some d \<Rightarrow> 10 * a + d | None \<Rightarrow> a) 0 ds"

definition parseInt10 :: "string \<Rightarrow> int option" where
  "parseInt10 s =
     (let t = dropWhile is_space s;
          neg = (case t of c # _ \<Rightarrow> c = CHR ''-'' | [] \<Rightarrow> False);
          u = (case t of c # r \<Rightarrow> if c = CHR ''-'' \<or> c = CHR ''+'' then r else t | [] \<Rightarrow> []);
          ds = takeWhile is_digit u
      in if ds = [] then None
         else Some (if neg then - int (digits_value ds) else int (digits_value ds)))"

subsection \<open>Objects\<close>

text \<open>
  \<open>own_props\<close> lists the own enumerable properties of a value, which is what a spread
  \<^verbatim>\<open>{...v}\<close>, \<^verbatim>\<open>Object.keys\<close> and \<^verbatim>\<open>Object.entries\<close> go through: the fields of an object, the
  elements of an array under their indices, the characters of a string, nothing for the
  other primitives. The list is kept in creation order. JavaScript enumerates the keys that
  are array indices first, in ascending order, and the others in creation order; the two
  orders differ only where an array index is created after another key, as in the
  difference of a list with a shorter one, whose deleted indices are created first. All
  that depends on the order of enumeration is which of two entries with the same key
  \<^verbatim>\<open>Object.fromEntries\<close> keeps.
\<close>

fun own_props :: "jsval \<Rightarrow> props" where
  "own_props (Obj kvs) = kvs"
| "own_props (Arr xs) = zip (map index_key [0 ..< length xs]) xs"
| "own_props (Str s) = zip (map index_key [0 ..< length s]) (map (\<lambda>c. Str [c]) s)"
| "own_props _ = []"

definition own_keys :: "jsval \<Rightarrow> string list" where
  "own_keys v = map fst (own_props v)"

text \<open>Arrays and strings also own a \<^verbatim>\<open>length\<close>, which is not enumerable.\<close>

fun own_length :: "jsval \<Rightarrow> nat option" where
  "own_length (Arr xs) = Some (length xs)"
| "own_length (Str s) = Some (length s)"
| "own_length _ = None"

text \<open>\<^verbatim>\<open>v.hasOwnProperty(k)\<close>\<close>

definition has_own :: "jsval \<Rightarrow> string \<Rightarrow> bool" where
  "has_own v k = (k \<in> set (own_keys v) \<or> (own_length v \<noteq> None \<and> k = ''length''))"

text \<open>
  Reading a property, \<^verbatim>\<open>v[k]\<close> or \<^verbatim>\<open>v.k\<close>: \<^verbatim>\<open>undefined\<close> for a property that is absent, and
  a \<^verbatim>\<open>TypeError\<close> when \<open>v\<close> is \<^verbatim>\<open>undefined\<close> or \<^verbatim>\<open>null\<close>. \<open>read_prop\<close> is the read on a
  value that is neither. Members inherited from the prototypes are functions; they are not
  represented and read as \<open>Undefined\<close>, which makes no difference to the editor: the only
  dynamically named property it reads is spread at once, and a function spreads to the empty
  object as \<^verbatim>\<open>undefined\<close> does.
\<close>

definition read_prop :: "jsval \<Rightarrow> string \<Rightarrow> jsval" where
  "read_prop v k =
     (case map_of (own_props v) k of
        Some x \<Rightarrow> x
      | None \<Rightarrow> (case own_length v of
                   Some n \<Rightarrow> if k = ''length'' then Num (int n) else Undefined
                 | None \<Rightarrow> Undefined))"

definition get_prop :: "jsval \<Rightarrow> string \<Rightarrow> error + jsval" where
  "get_prop v k = (if v = Undefined \<or> v = Null then Inl TypeError else Inr (read_prop v k))"

text \<open>\<^verbatim>\<open>xs[n]\<close> for a number \<open>n\<close>: \<^verbatim>\<open>undefined\<close> outside the array and for \<^verbatim>\<open>NaN\<close>.\<close>

definition at_index :: "jsval list \<Rightarrow> int option \<Rightarrow> jsval" where
  "at_index xs n =
     (case n of None \<Rightarrow> Undefined
      | Some i \<Rightarrow> if 0 \<le> i \<and> i < int (length xs) then xs ! nat i else Undefined)"

fun truthy :: "jsval \<Rightarrow> bool" where
  "truthy Undefined = False"
| "truthy Null = False"
| "truthy (Bool b) = b"
| "truthy (Num n) = (n \<noteq> 0)"
| "truthy (Str s) = (s \<noteq> [])"
| "truthy (Arr _) = True"
| "truthy (Obj _) = True"

text \<open>
  \<^verbatim>\<open>a === b\<close>. On primitives this is equality of values. On objects and arrays JavaScript
  compares identity, which the values here do not have; the model compares structure. The
  two agree where the editor compares: the names of columns are strings, and every
  statement below about finding a column by its name is made for string names; the differ
  returns the empty difference for two equal objects on either of its branches (lemmas
  \<open>difference_same\<close> and \<open>difference_same_by_keys\<close>).
\<close>

definition strict_eq :: "jsval \<Rightarrow> jsval \<Rightarrow> bool" where
  "strict_eq a b = (a = b)"

text \<open>The string a value becomes when it is used as a property key.\<close>

fun join_comma :: "string list \<Rightarrow> string" where
  "join_comma [] = []"
| "join_comma [s] = s"
| "join_comma (s # t # ss) = s @ '','' @ join_comma (t # ss)"

fun to_key :: "jsval \<Rightarrow> string" where
  "to_key Undefined = ''undefined''"
| "to_key Null = ''null''"
| "to_key (Bool b) = (if b then ''true'' else ''false'')"
| "to_key (Num n) = (if n < 0 then ''-'' @ index_key (nat (- n)) else index_key (nat n))"
| "to_key (Str s) = s"
| "to_key (Arr xs) = join_comma (map (\<lambda>x. if x = Undefined \<or> x = Null then [] else to_key x) xs)"
| "to_key (Obj _) = ''[object Object]''"

text \<open>\<^verbatim>\<open>isEmpty\<close> of lodash.\<close>

fun isEmpty :: "jsval \<Rightarrow> bool" where
  "isEmpty (Str s) = (s = [])"
| "isEmpty (Arr xs) = (xs = [])"
| "isEmpty (Obj kvs) = (kvs = [])"
| "isEmpty _ = True"

text \<open>\<^verbatim>\<open>s.split(".")\<close>\<close>

fun split_dot :: "string \<Rightarrow> string list" where
  "split_dot [] = [[]]"
| "split_dot (c # cs) =
     (if c = CHR ''.'' then [] # split_dot cs
      else (case split_dot cs of s # ss \<Rightarrow> (c # s) # ss | [] \<Rightarrow> [[c]]))"

section \<open>The diff engine\<close>

text \<open>
  \<^verbatim>\<open>import { diff as difference } from "deep-object-diff"\<close>: the editor computes the
  difference of the loaded and the edited column lists with the \<^verbatim>\<open>diff\<close> function of that
  package, which is not part of the repository. \<open>difference\<close> follows the package's function
  (version 1.1.0, the one current when the editor was written) statement by statement:
  \<^verbatim>\<open>
  const diff = (lhs, rhs) => {
    if (lhs === rhs) return {};
    if (!isObject(lhs) || !isObject(rhs)) return rhs;
    const l = properObject(lhs);
    const r = properObject(rhs);
    const deletedValues = Object.keys(l).reduce((acc, key) => {
      return r.hasOwnProperty(key) ? acc : { ...acc, [key]: undefined };
    }, {});
    if (isDate(l) || isDate(r)) { ... }
    return Object.keys(r).reduce((acc, key) => {
      if (!l.hasOwnProperty(key)) return { ...acc, [key]: r[key] };
      const difference = diff(l[key], r[key]);
      if (isObject(difference) && isEmpty(difference) && !isDate(difference)) return acc;
      return { ...acc, [key]: difference };
    }, deletedValues);
  };
  \<close>
  with \<^verbatim>\<open>isObject = o => o != null && typeof o === 'object'\<close> and
  \<^verbatim>\<open>isEmpty = o => Object.keys(o).length === 0\<close>. Arrays are objects to it, compared key by
  key under their indices. Columns hold no \<^verbatim>\<open>Date\<close>, so that branch is left out.
\<close>

fun isObject :: "jsval \<Rightarrow> bool" where
  "isObject (Arr _) = True"
| "isObject (Obj _) = True"
| "isObject _ = False"

lemma size_in_props: "(k, v) \<in> set kvs \<Longrightarrow> size (v::jsval) < Suc (size_list (size_prod (\<lambda>_. 0) size) kvs)"
  by (induction kvs) auto

lemma size_in_zip: "(k, v) \<in> set (zip ks xs) \<Longrightarrow> size (v::jsval) < Suc (size_list size xs)"
  by (metis in_set_zipE size_list_estimation less_Suc_eq_le less_imp_le_nat not_less_eq)

lemma size_own_props: "isObject v \<Longrightarrow> (k, x) \<in> set (own_props v) \<Longrightarrow> size x < size v"
  by (cases v) (auto dest: size_in_zip size_in_props)

lemma size_read_prop: "isObject v \<Longrightarrow> size (read_prop v k) < size v"
proof (cases "map_of (own_props v) k")
  case None
  assume "isObject v"
  then have "0 < size v" by (cases v) auto
  with None show ?thesis by (simp add: read_prop_def split: option.splits)
next
  case (Some x)
  assume "isObject v"
  with Some show ?thesis
    by (simp add: read_prop_def size_own_props [OF _ map_of_SomeD])
qed

function difference :: "jsval \<Rightarrow> jsval \<Rightarrow> jsval" where
  "difference lhs rhs =
     (if strict_eq lhs rhs then Obj []
      else if \<not> isObject lhs \<or> \<not> isObject rhs then rhs
      else
        let deletedValues =
              fold (\<lambda>key acc. if has_own rhs key then acc else AList.update key Undefined acc)
                (own_keys lhs) []
        in Obj (fold (\<lambda>key acc.
                  if \<not> has_own lhs key then AList.update key (read_prop rhs key) acc
                  else
                    let d = difference (read_prop lhs key) (read_prop rhs key)
                    in if isObject d \<and> own_keys d = [] then acc
                       else AList.update key d acc)
             (own_keys rhs) deletedValues))"
  by pat_completeness auto
termination
  by (relation "measure (\<lambda>(l, r). size r)") (auto simp: size_read_prop)

declare difference.simps [simp del]

section \<open>The fields editor\<close>

text \<open>
  The state of \<^verbatim>\<open>FieldsEditor\<close>: \<^verbatim>\<open>columns\<close>, the working list, and \<^verbatim>\<open>column\<close>, the column shown
  in the \<^verbatim>\<open>ColumnEditor\<close> (\<^verbatim>\<open>undefined\<close> before one is selected). \<^verbatim>\<open>initialColumns\<close>, the loaded
  list, is a property of the component and never changes.
\<close>

record fields_editor =
  columns :: "jsval list"
  column :: jsval

subsection \<open>The change set\<close>

definition diff :: "jsval list \<Rightarrow> jsval list \<Rightarrow> jsval" where
  "diff initialColumns cols = difference (Arr initialColumns) (Arr cols)"

definition isDirty :: "jsval \<Rightarrow> bool" where
  "isDirty d = (\<not> isEmpty d)"

text \<open>\<^verbatim>\<open>Object.entries\<close> refuses \<^verbatim>\<open>undefined\<close> and \<^verbatim>\<open>null\<close>.\<close>

definition entries :: "jsval \<Rightarrow> error + props" where
  "entries v = (if v = Undefined \<or> v = Null then Inl TypeError else Inr (own_props v))"

text \<open>\<^verbatim>\<open>Object.fromEntries\<close>: a later entry replaces an earlier one with the same key.\<close>

definition fromEntries :: "props \<Rightarrow> props" where
  "fromEntries es = fold (\<lambda>(k, v) acc. AList.update k v acc) es []"

fun map_result :: "('a \<Rightarrow> error + 'b) \<Rightarrow> 'a list \<Rightarrow> error + 'b list" where
  "map_result f [] = Inr []"
| "map_result f (x # xs) =
     (case f x of Inl e \<Rightarrow> Inl e
      | Inr y \<Rightarrow> (case map_result f xs of Inl e \<Rightarrow> Inl e | Inr ys \<Rightarrow> Inr (y # ys)))"

text \<open>
  The object built for one column (lines 417 to 428):
  \<^verbatim>\<open>{ ...changes,
    baseOptions: { ...changes.baseOptions, visibility: column.baseOptions.visibility },
    fieldOptions: { ...changes.fieldOptions } }\<close>
\<close>

definition changesObject :: "jsval \<Rightarrow> jsval \<Rightarrow> error + jsval" where
  "changesObject chg col =
     (case get_prop chg ''baseOptions'' of Inl e \<Rightarrow> Inl e | Inr cbo \<Rightarrow>
      case get_prop col ''baseOptions'' of Inl e \<Rightarrow> Inl e | Inr bo \<Rightarrow>
      case get_prop bo ''visibility'' of Inl e \<Rightarrow> Inl e | Inr vis \<Rightarrow>
      case get_prop chg ''fieldOptions'' of Inl e \<Rightarrow> Inl e | Inr cfo \<Rightarrow>
        Inr (Obj (AList.update ''fieldOptions'' (Obj (own_props cfo))
                 (AList.update ''baseOptions''
                    (Obj (AList.update ''visibility'' vis (own_props cbo)))
                    (own_props chg)))))"

text \<open>
  One entry of the change set (lines 410 to 431). \<^verbatim>\<open>return []\<close> hands \<^verbatim>\<open>Object.fromEntries\<close> an
  entry without key and value, which it stores as \<^verbatim>\<open>undefined\<close> under the key
  \<^verbatim>\<open>"undefined"\<close>.
\<close>

definition change_entry :: "jsval list \<Rightarrow> string \<times> jsval \<Rightarrow> error + string \<times> jsval" where
  "change_entry cols e =
     (case e of (columnIndex, chg) \<Rightarrow>
        let col = at_index cols (parseInt10 columnIndex)
        in if \<not> truthy col then Inr (''undefined'', Undefined)
           else (case changesObject chg col of Inl e \<Rightarrow> Inl e
                 | Inr obj \<Rightarrow> Inr (to_key (read_prop col ''name''), obj)))"

definition changes :: "jsval \<Rightarrow> jsval list \<Rightarrow> error + jsval" where
  "changes d cols =
     (case entries d of Inl e \<Rightarrow> Inl e
      | Inr es \<Rightarrow> (case map_result (change_entry cols) es of Inl e \<Rightarrow> Inl e
                  | Inr ps \<Rightarrow> Inr (Obj (fromEntries ps))))"

subsection \<open>Setting an option\<close>

text \<open>
  Lines 444 to 463 of \<^verbatim>\<open>setColumnOption\<close>: the column that replaces the edited one. A name of
  two segments addresses a field inside a namespace; the namespace is used when it is truthy,
  that is, not the empty string.
\<close>

definition newColumn :: "jsval \<Rightarrow> string \<Rightarrow> jsval \<Rightarrow> error + jsval" where
  "newColumn col name val =
     (let segments = split_dot name;
          namespace = (if length segments = 2 then Some (segments ! 0) else None);
          name = (if length segments = 2 then segments ! 1 else name)
      in case namespace of
           Some ns \<Rightarrow>
             if ns \<noteq> [] then
               (case get_prop col ns of Inl e \<Rightarrow> Inl e
                | Inr sub \<Rightarrow>
                    Inr (Obj (AList.update ns (Obj (AList.update name val (own_props sub)))
                               (own_props col))))
             else Inr (Obj (AList.update name val (own_props col)))
         | None \<Rightarrow> Inr (Obj (AList.update name val (own_props col))))"

text \<open>\<^verbatim>\<open>newColumns.findIndex((c) => c.name === column.name)\<close>, \<open>None\<close> for \<^verbatim>\<open>-1\<close>.\<close>

fun findIndex :: "jsval \<Rightarrow> jsval list \<Rightarrow> error + nat option" where
  "findIndex col [] = Inr None"
| "findIndex col (c # cs) =
     (case get_prop c ''name'' of Inl e \<Rightarrow> Inl e | Inr cn \<Rightarrow>
      case get_prop col ''name'' of Inl e \<Rightarrow> Inl e | Inr n \<Rightarrow>
        if strict_eq cn n then Inr (Some 0)
        else (case findIndex col cs of Inl e \<Rightarrow> Inl e
              | Inr None \<Rightarrow> Inr None
              | Inr (Some i) \<Rightarrow> Inr (Some (Suc i))))"

text \<open>
  \<^verbatim>\<open>setColumnOption\<close> (lines 439 to 472), called in a rendering whose state is \<open>s\<close>: it reads
  \<^verbatim>\<open>columns\<close> from that rendering. The result is the state it asks React to install, \<open>None\<close>
  when it sets nothing (\<^verbatim>\<open>index\<close> is \<^verbatim>\<open>-1\<close>).
\<close>

definition setColumnOption :: "fields_editor \<Rightarrow> jsval \<Rightarrow> string \<Rightarrow> jsval \<Rightarrow> error + fields_editor option" where
  "setColumnOption s col name val =
     (case newColumn col name val of Inl e \<Rightarrow> Inl e
      | Inr nc \<Rightarrow>
         (case findIndex col (columns s) of Inl e \<Rightarrow> Inl e
          | Inr None \<Rightarrow> Inr None
          | Inr (Some index) \<Rightarrow>
              Inr (Some \<lparr>columns = (columns s)[index := nc], column = nc\<rparr>)))"

subsection \<open>The effects of the column editor\<close>

text \<open>
  \<^verbatim>\<open>ColumnEditor\<close> is rendered for the selected column and passes that column to every call of
  \<^verbatim>\<open>setColumnOption\<close>. It declares two effects (lines 101 to 115),
  \<^verbatim>\<open>
  useEffect(() => {
    if (column.baseOptions.required) {
      setColumnOption(column, "baseOptions.nullable", false);
    }
  }, [column.baseOptions.required]);

  useEffect(() => {
    if (column.baseOptions.nullable) {
      setColumnOption(column, "baseOptions.required", false);
      if (isEmpty(column.baseOptions.nullValues)) {
        setColumnOption(column, "baseOptions.nullValues", [""]);
      }
    }
  }, [column.baseOptions.nullable]);
  \<close>
  which React runs after a rendering, in this order, each one only when the component is
  new or the value in its dependency list is not the one of the previous rendering. Both run
  in the rendering they were created in: \<^verbatim>\<open>column\<close> is the column of that rendering for every
  call they make, and \<^verbatim>\<open>setColumnOption\<close> is the function of that rendering, reading its
  \<^verbatim>\<open>columns\<close>. React installs the values of the last \<^verbatim>\<open>setColumn\<close> and \<^verbatim>\<open>setColumns\<close> and
  renders again.
\<close>

text \<open>The two dependency lists, evaluated while rendering.\<close>

definition effect_deps :: "jsval \<Rightarrow> error + jsval \<times> jsval" where
  "effect_deps col =
     (case get_prop col ''baseOptions'' of Inl e \<Rightarrow> Inl e | Inr bo \<Rightarrow>
      case get_prop bo ''required'' of Inl e \<Rightarrow> Inl e | Inr req \<Rightarrow>
      case get_prop bo ''nullable'' of Inl e \<Rightarrow> Inl e | Inr nul \<Rightarrow> Inr (req, nul))"

text \<open>The calls of \<^verbatim>\<open>setColumnOption\<close> each effect makes, as pairs of option name and value.\<close>

definition required_effect :: "jsval \<Rightarrow> error + (string \<times> jsval) list" where
  "required_effect col =
     (case get_prop col ''baseOptions'' of Inl e \<Rightarrow> Inl e | Inr bo \<Rightarrow>
      case get_prop bo ''required'' of Inl e \<Rightarrow> Inl e | Inr req \<Rightarrow>
        Inr (if truthy req then [(''baseOptions.nullable'', Bool False)] else []))"

definition nullable_effect :: "jsval \<Rightarrow> error + (string \<times> jsval) list" where
  "nullable_effect col =
     (case get_prop col ''baseOptions'' of Inl e \<Rightarrow> Inl e | Inr bo \<Rightarrow>
      case get_prop bo ''nullable'' of Inl e \<Rightarrow> Inl e | Inr nul \<Rightarrow>
        if truthy nul then
          (case get_prop bo ''nullValues'' of Inl e \<Rightarrow> Inl e
           | Inr nvs \<Rightarrow>
               Inr ((''baseOptions.required'', Bool False)
                    # (if isEmpty nvs then [(''baseOptions.nullValues'', Arr [Str []])] else [])))
        else Inr [])"

text \<open>
  The calls of one rendering, all made with its state \<open>s\<close> and its column \<open>col\<close>; \<open>pending\<close> is
  the state asked for so far, replaced by every call that sets one.
\<close>

fun run_calls :: "fields_editor \<Rightarrow> jsval \<Rightarrow> (string \<times> jsval) list \<Rightarrow> fields_editor option \<Rightarrow> error + fields_editor option" where
  "run_calls s col [] pending = Inr pending"
| "run_calls s col ((name, val) # cs) pending =
     (case setColumnOption s col name val of
        Inl e \<Rightarrow> Inl e
      | Inr None \<Rightarrow> run_calls s col cs pending
      | Inr (Some s') \<Rightarrow> run_calls s col cs (Some s'))"

text \<open>
  The effects after rendering the state \<open>s\<close>; \<open>prev\<close> holds the dependencies of the previous
  rendering, \<open>None\<close> when the column editor has just been mounted. The result is the state to
  render next, \<open>None\<close> when no effect set one.
\<close>

definition run_effects :: "(jsval \<times> jsval) option \<Rightarrow> fields_editor \<Rightarrow> error + fields_editor option" where
  "run_effects prev s =
     (case effect_deps (column s) of Inl e \<Rightarrow> Inl e
      | Inr (req, nul) \<Rightarrow>
         (case (if (case prev of None \<Rightarrow> True | Some (req0, nul0) \<Rightarrow> req0 \<noteq> req)
                then required_effect (column s) else Inr []) of
            Inl e \<Rightarrow> Inl e
          | Inr calls1 \<Rightarrow>
             (case (if (case prev of None \<Rightarrow> True | Some (req0, nul0) \<Rightarrow> nul0 \<noteq> nul)
                    then nullable_effect (column s) else Inr []) of
                Inl e \<Rightarrow> Inl e
              | Inr calls2 \<Rightarrow> run_calls s (column s) (calls1 @ calls2) None)))"

text \<open>
  Rendering and running effects until no effect sets a state. \<open>fuel\<close> bounds the number of
  renderings; \<open>None\<close> means that it was used up. Without a selected column the column editor
  is not rendered and nothing runs. Of a rendering only the dependency lists of the two
  effects are evaluated: what the components draw is not part of the model.
\<close>

fun rerender :: "nat \<Rightarrow> (jsval \<times> jsval) option \<Rightarrow> fields_editor \<Rightarrow> (error + fields_editor) option" where
  "rerender 0 prev s = None"
| "rerender (Suc fuel) prev s =
     (if \<not> truthy (column s) then Some (Inr s)
      else (case effect_deps (column s) of Inl e \<Rightarrow> Some (Inl e)
            | Inr deps \<Rightarrow>
               (case run_effects prev s of Inl e \<Rightarrow> Some (Inl e)
                | Inr None \<Rightarrow> Some (Inr s)
                | Inr (Some s') \<Rightarrow> rerender fuel (Some deps) s')))"

text \<open>
  An edit in the column editor, the mutation of the working list as a whole: a control of
  the editor rendered in state \<open>s\<close> calls \<^verbatim>\<open>setColumnOption(column, name, value)\<close> with the
  column it shows, and the editor is rendered again, running its effects, until it has
  settled.
\<close>

definition mutate :: "nat \<Rightarrow> fields_editor \<Rightarrow> string \<Rightarrow> jsval \<Rightarrow> (error + fields_editor) option" where
  "mutate fuel s name val =
     (case effect_deps (column s) of Inl e \<Rightarrow> Some (Inl e)
      | Inr deps \<Rightarrow>
         (case setColumnOption s (column s) name val of Inl e \<Rightarrow> Some (Inl e)
          | Inr None \<Rightarrow> Some (Inr s)
          | Inr (Some s') \<Rightarrow> rerender fuel (Some deps) s'))"

subsection \<open>Columns\<close>

text \<open>
  Modelled from the spec: the type \<^verbatim>\<open>Column\<close> of \<^verbatim>\<open>@/features/fields/types\<close>, which the editor
  imports and which is not among the sources. A column is an object with a \<^verbatim>\<open>name\<close>, a string
  that identifies it in its table, and with \<^verbatim>\<open>baseOptions\<close>, an object of options. The other
  fields of the type are not constrained here: the functions above read none of them.
\<close>

definition is_column :: "jsval \<Rightarrow> bool" where
  "is_column c =
     ((case c of Obj _ \<Rightarrow> True | _ \<Rightarrow> False)
      \<and> (case read_prop c ''name'' of Str _ \<Rightarrow> True | _ \<Rightarrow> False)
      \<and> (case read_prop c ''baseOptions'' of Obj _ \<Rightarrow> True | _ \<Rightarrow> False))"

text \<open>The key of a column in the change set.\<close>

definition column_name :: "jsval \<Rightarrow> string" where
  "column_name c = to_key (read_prop c ''name'')"

text \<open>
  The differ reports a difference between two values: the test by which \<open>difference\<close> keeps
  a key, \<^verbatim>\<open>!(isObject(difference) && isEmpty(difference))\<close>.
\<close>

definition changed :: "jsval \<Rightarrow> jsval \<Rightarrow> bool" where
  "changed l r = (\<not> (isObject (difference l r) \<and> own_keys (difference l r) = []))"


text \<open>
  Modelled from the spec: the option paths that resolve to a field of a \<^verbatim>\<open>Column\<close>, after the
  data model of the spec (the type itself is not among the sources). A path is a field of
  the column or, dotted, a field of one of its namespaces; \<^verbatim>\<open>fieldOptions\<close> and
  \<^verbatim>\<open>dataSourceInfo\<close> are open mappings.
\<close>

definition known_path :: "string \<Rightarrow> bool" where
  "known_path p =
     (case split_dot p of
        [f] \<Rightarrow> f \<in> set [''name'', ''fieldType'', ''label'', ''baseOptions'', ''fieldOptions'', ''dataSourceInfo'']
      | [ns, f] \<Rightarrow>
          (ns = ''baseOptions''
             \<and> f \<in> set [''label'', ''placeholder'', ''help'', ''defaultValue'', ''required'', ''nullable'',
                        ''nullValues'', ''disconnected'', ''visibility''])
          \<or> ns = ''fieldOptions'' \<or> ns = ''dataSourceInfo''
      | _ \<Rightarrow> False)"


section \<open>Properties of values\<close>

subsection \<open>Reading and writing properties\<close>

lemma get_prop_defined: "v \<noteq> Undefined \<Longrightarrow> v \<noteq> Null \<Longrightarrow> get_prop v k = Inr (read_prop v k)"
  by (simp add: get_prop_def)

lemma get_prop_Obj: "get_prop (Obj kvs) k = Inr (read_prop (Obj kvs) k)"
  by (simp add: get_prop_def)

lemma read_prop_update_same: "read_prop (Obj (AList.update k v kvs)) k = v"
  by (simp add: read_prop_def update_conv')

lemma read_prop_update_other: "k' \<noteq> k \<Longrightarrow> read_prop (Obj (AList.update k v kvs)) k' = read_prop (Obj kvs) k'"
  by (simp add: read_prop_def update_conv' split: option.splits)


lemma has_own_Obj: "has_own (Obj kvs) k \<longleftrightarrow> k \<in> fst ` set kvs"
  by (simp add: has_own_def own_keys_def)

lemma has_own_lookup: "map_of kvs k = Some v \<Longrightarrow> has_own (Obj kvs) k"
  by (auto simp: has_own_Obj dest!: map_of_SomeD intro: rev_image_eqI)

subsection \<open>Decimal keys are read back by parseInt\<close>

lemma digit_val_digit_char: "d < 10 \<Longrightarrow> digit_val (digit_char d) = Some d"
proof -
  assume "d < 10"
  then have "d \<in> {0,1,2,3,4,5,6,7,8,9}" by auto
  then show ?thesis
    by (auto simp: digit_val_def digit_char_def upt_conv_Cons)
qed

lemma is_digit_digit_char: "d < 10 \<Longrightarrow> is_digit (digit_char d)"
  by (simp add: is_digit_def digit_val_digit_char)

lemma digit_char_not_space: "d < 10 \<Longrightarrow> \<not> is_space (digit_char d)"
proof -
  assume "d < 10"
  then have "d \<in> {0,1,2,3,4,5,6,7,8,9}" by auto
  then show ?thesis by (auto simp: is_space_def digit_char_def)
qed

lemma digit_char_not_sign: "d < 10 \<Longrightarrow> digit_char d \<noteq> CHR ''-'' \<and> digit_char d \<noteq> CHR ''+''"
proof -
  assume "d < 10"
  then have "d \<in> {0,1,2,3,4,5,6,7,8,9}" by auto
  then show ?thesis by (auto simp: digit_char_def)
qed

lemma index_key_digits: "\<forall>c \<in> set (index_key n). is_digit c"
proof (induction n rule: index_key.induct)
  case (1 n)
  show ?case
  proof (cases "n < 10")
    case True
    then show ?thesis by (subst index_key.simps) (simp add: is_digit_digit_char)
  next
    case False
    with 1 show ?thesis by (subst index_key.simps) (simp add: is_digit_digit_char)
  qed
qed

lemma index_key_nonempty: "index_key n \<noteq> []"
  by (subst index_key.simps) simp

lemma digits_value_snoc:
  "digits_value (ds @ [c]) = (case digit_val c of Some d \<Rightarrow> 10 * digits_value ds + d | None \<Rightarrow> digits_value ds)"
  by (simp add: digits_value_def split: option.splits)

lemma digits_value_index_key: "digits_value (index_key n) = n"
proof (induction n rule: index_key.induct)
  case (1 n)
  show ?case
  proof (cases "n < 10")
    case True
    then show ?thesis
      by (subst index_key.simps) (simp add: digits_value_def digit_val_digit_char)
  next
    case False
    with 1 have "digits_value (index_key (n div 10)) = n div 10" by simp
    with False show ?thesis
      by (subst index_key.simps) (simp add: digits_value_snoc digit_val_digit_char)
  qed
qed

lemma index_key_hd: "\<exists>d cs. d < 10 \<and> index_key n = digit_char d # cs"
proof (induction n rule: index_key.induct)
  case (1 n)
  show ?case
  proof (cases "n < 10")
    case True
    then show ?thesis by (subst index_key.simps) auto
  next
    case False
    with 1 obtain d cs where "d < 10" "index_key (n div 10) = digit_char d # cs" by auto
    with False show ?thesis by (subst index_key.simps) auto
  qed
qed

lemma parseInt10_index_key: "parseInt10 (index_key n) = Some (int n)"
proof -
  obtain d cs where d: "d < 10" and eq: "index_key n = digit_char d # cs"
    using index_key_hd by blast
  have drop: "dropWhile is_space (index_key n) = index_key n"
    using d eq by (simp add: digit_char_not_space)
  have neg: "(case index_key n of c # _ \<Rightarrow> c = CHR ''-'' | [] \<Rightarrow> False) = False"
    using digit_char_not_sign [OF d] by (simp add: eq)
  have u: "(case index_key n of c # r \<Rightarrow> if c = CHR ''-'' \<or> c = CHR ''+'' then r else index_key n | [] \<Rightarrow> [])
           = index_key n"
    using digit_char_not_sign [OF d] by (simp add: eq)
  have tw: "takeWhile is_digit (index_key n) = index_key n"
    using index_key_digits by (simp add: takeWhile_eq_all_conv)
  show ?thesis
    unfolding parseInt10_def drop Let_def neg u tw
    by (simp add: index_key_nonempty digits_value_index_key)
qed

lemma index_key_inject: "index_key m = index_key n \<Longrightarrow> m = n"
  by (metis digits_value_index_key)

lemma index_key_eq_iff: "index_key m = index_key n \<longleftrightarrow> m = n"
  by (auto dest: index_key_inject)

lemma index_key_not_length: "index_key n \<noteq> ''length''"
proof
  assume "index_key n = ''length''"
  with index_key_digits [of n] have "is_digit CHR ''l''" by simp
  then show False by (simp add: is_digit_def digit_val_def upt_conv_Cons)
qed

lemma distinct_index_keys: "distinct (map index_key [0 ..< n])"
  by (simp add: distinct_map inj_on_def index_key_inject)

subsection \<open>Arrays as objects\<close>

lemma own_keys_Arr: "own_keys (Arr xs) = map index_key [0 ..< length xs]"
  by (simp add: own_keys_def)

lemma map_of_own_props_Arr:
  "i < length xs \<Longrightarrow> map_of (own_props (Arr xs)) (index_key i) = Some (xs ! i)"
  using map_of_zip_nth [of "map index_key [0 ..< length xs]" xs i]
  by (simp add: distinct_index_keys)

lemma read_prop_Arr: "i < length xs \<Longrightarrow> read_prop (Arr xs) (index_key i) = xs ! i"
  by (simp add: read_prop_def map_of_own_props_Arr del: own_props.simps)

lemma has_own_Arr: "has_own (Arr xs) (index_key i) \<longleftrightarrow> i < length xs"
  by (auto simp: has_own_def own_keys_Arr index_key_not_length dest: index_key_inject)

subsection \<open>Lists and association lists\<close>

lemma update_fresh: "k \<notin> fst ` set acc \<Longrightarrow> AList.update k v acc = acc @ [(k, v)]"
  by (induction acc) auto

lemma fold_update_fresh:
  assumes "distinct ks" and "set ks \<inter> fst ` set acc = {}"
  shows "fold (\<lambda>k acc. case f k of None \<Rightarrow> acc | Some v \<Rightarrow> AList.update k v acc) ks acc
         = acc @ List.map_filter (\<lambda>k. map_option (Pair k) (f k)) ks"
  using assms
proof (induction ks arbitrary: acc)
  case Nil
  then show ?case by (simp add: List.map_filter_simps)
next
  case (Cons k ks)
  show ?case
  proof (cases "f k")
    case None
    with Cons show ?thesis by (simp add: List.map_filter_simps)
  next
    case (Some v)
    from Cons.prems have fresh: "k \<notin> fst ` set acc" by auto
    have "set ks \<inter> fst ` set (acc @ [(k, v)]) = {}"
      using Cons.prems by auto
    with Cons.IH [of "acc @ [(k, v)]"] Cons.prems Some fresh show ?thesis
      by (simp add: List.map_filter_simps update_fresh)
  qed
qed

lemma fold_unchanged: "\<forall>k \<in> set ks. f k acc = acc \<Longrightarrow> fold f ks acc = acc"
  by (induction ks) simp_all

lemma fold_entries_fresh:
  assumes "distinct (map fst ps)" and "fst ` set ps \<inter> fst ` set acc = {}"
  shows "fold (\<lambda>(k, v) acc. AList.update k v acc) ps acc = acc @ ps"
  using assms
proof (induction ps arbitrary: acc)
  case Nil
  then show ?case by simp
next
  case (Cons p ps)
  obtain k v where p: "p = (k, v)" by (cases p)
  from Cons.prems p have fresh: "k \<notin> fst ` set acc" by auto
  have "fst ` set ps \<inter> fst ` set (acc @ [(k, v)]) = {}"
    using Cons.prems p by auto
  with Cons.IH [of "acc @ [(k, v)]"] Cons.prems p fresh show ?case
    by (simp add: update_fresh)
qed

lemma fromEntries_distinct: "distinct (map fst ps) \<Longrightarrow> fromEntries ps = ps"
  using fold_entries_fresh [of ps "[]"] by (simp add: fromEntries_def)

lemma filter_upt_ge: "filter (\<lambda>j. m \<le> j) [0 ..< n] = [m ..< n]"
  by (induction n) auto


lemma map_filter_map_cong:
  "\<forall>x \<in> set xs. g (h x) = g' x \<Longrightarrow> List.map_filter g (map h xs) = List.map_filter g' xs"
  by (induction xs) (simp_all add: List.map_filter_simps split: option.splits)

lemma map_filter_cong:
  "\<forall>x \<in> set xs. g x = g' x \<Longrightarrow> List.map_filter g xs = List.map_filter g' xs"
  using map_filter_map_cong [of xs g "\<lambda>x. x" g'] by simp

lemma map_fst_map_filter:
  "\<forall>x \<in> set xs. \<forall>y. f x = Some y \<longrightarrow> fst y = k x \<Longrightarrow>
   map fst (List.map_filter f xs) = map k (filter (\<lambda>x. f x \<noteq> None) xs)"
  by (induction xs) (auto simp: List.map_filter_simps split: option.splits)

lemma distinct_map_filter_keys:
  assumes "\<forall>x \<in> set xs. \<forall>y. f x = Some y \<longrightarrow> fst y = k x" and "distinct (map k xs)"
  shows "distinct (map fst (List.map_filter f xs))"
  using assms by (simp add: map_fst_map_filter distinct_map_filter)

lemma in_set_map_filter: "y \<in> set (List.map_filter f xs) \<longleftrightarrow> (\<exists>x \<in> set xs. f x = Some y)"
  by (induction xs) (auto split: option.splits)

lemma map_of_map_filter:
  assumes "\<forall>x \<in> set xs. \<forall>y. f x = Some y \<longrightarrow> fst y = k x" and "distinct (map k xs)"
    and "x \<in> set xs" and "f x = Some (kx, v)"
  shows "map_of (List.map_filter f xs) kx = Some v"
proof -
  have "(kx, v) \<in> set (List.map_filter f xs)"
    using assms(3,4) by (auto simp: in_set_map_filter)
  with distinct_map_filter_keys [OF assms(1,2)] show ?thesis
    by (rule map_of_is_SomeI)
qed

lemma map_result_map_filter:
  assumes "\<forall>x \<in> set xs. \<forall>y. F x = Some y \<longrightarrow> f y = Inr (g x)"
  shows "map_result f (List.map_filter F xs) = Inr (map g (filter (\<lambda>x. F x \<noteq> None) xs))"
  using assms by (induction xs) (auto split: option.splits)

section \<open>Properties of the diff engine\<close>

subsection \<open>The result of the differ\<close>

lemma difference_same: "difference v v = Obj []"
  by (subst difference.simps) (simp add: strict_eq_def)

text \<open>
  The branch of the differ that goes key by key, taken on a value against itself (as
  JavaScript takes it for two equal objects that are not one object), gives the empty
  difference as well.
\<close>

lemma difference_same_by_keys:
  "fold (\<lambda>key acc.
           if \<not> has_own v key then AList.update key (read_prop v key) acc
           else
             let d = difference (read_prop v key) (read_prop v key)
             in if isObject d \<and> own_keys d = [] then acc
                else AList.update key d acc)
     (own_keys v)
     (fold (\<lambda>key acc. if has_own v key then acc else AList.update key Undefined acc)
        (own_keys v) []) = []"
proof -
  have own: "\<forall>k \<in> set (own_keys v). has_own v k" by (simp add: has_own_def)
  have "fold (\<lambda>key acc. if has_own v key then acc else AList.update key Undefined acc)
          (own_keys v) [] = []"
    using own by (intro fold_unchanged) simp
  moreover have "fold (\<lambda>key acc.
           if \<not> has_own v key then AList.update key (read_prop v key) acc
           else
             let d = difference (read_prop v key) (read_prop v key)
             in if isObject d \<and> own_keys d = [] then acc
                else AList.update key d acc)
     (own_keys v) [] = []"
    using own by (intro fold_unchanged) (simp add: difference_same own_keys_def)
  ultimately show ?thesis by (simp only:)
qed

lemma difference_result: "difference l r = r \<or> (\<exists>kvs. difference l r = Obj kvs)"
  using difference.simps [of l r] by (auto simp: Let_def split: if_splits)

lemma difference_defined:
  assumes "r \<noteq> Undefined" and "r \<noteq> Null"
  shows "difference l r \<noteq> Undefined \<and> difference l r \<noteq> Null"
  using difference_result [of l r] assms by auto

lemma difference_unfold_objects:
  assumes "lhs \<noteq> rhs" and "isObject lhs" and "isObject rhs"
  shows "difference lhs rhs =
     Obj (fold (\<lambda>key acc.
            case (if \<not> has_own lhs key then Some (read_prop rhs key)
                  else let d = difference (read_prop lhs key) (read_prop rhs key)
                       in if isObject d \<and> own_keys d = [] then None else Some d) of
              None \<Rightarrow> acc | Some v \<Rightarrow> AList.update key v acc)
          (own_keys rhs)
          (fold (\<lambda>key acc. case (if has_own rhs key then None else Some Undefined) of
                   None \<Rightarrow> acc | Some v \<Rightarrow> AList.update key v acc)
             (own_keys lhs) []))"
proof -
  have f1: "(\<lambda>key acc. if has_own rhs key then acc else AList.update key Undefined acc)
        = (\<lambda>key acc. case (if has_own rhs key then None else Some Undefined) of
                   None \<Rightarrow> acc | Some v \<Rightarrow> AList.update key v acc)"
    by (intro ext) simp
  have f2: "(\<lambda>key acc.
                  if \<not> has_own lhs key then AList.update key (read_prop rhs key) acc
                  else
                    let d = difference (read_prop lhs key) (read_prop rhs key)
                    in if isObject d \<and> own_keys d = [] then acc
                       else AList.update key d acc)
       = (\<lambda>key acc.
            case (if \<not> has_own lhs key then Some (read_prop rhs key)
                  else let d = difference (read_prop lhs key) (read_prop rhs key)
                       in if isObject d \<and> own_keys d = [] then None else Some d) of
              None \<Rightarrow> acc | Some v \<Rightarrow> AList.update key v acc)"
    by (intro ext) (simp add: Let_def)
  have "difference lhs rhs =
     (let deletedValues =
              fold (\<lambda>key acc. if has_own rhs key then acc else AList.update key Undefined acc)
                (own_keys lhs) []
        in Obj (fold (\<lambda>key acc.
                  if \<not> has_own lhs key then AList.update key (read_prop rhs key) acc
                  else
                    let d = difference (read_prop lhs key) (read_prop rhs key)
                    in if isObject d \<and> own_keys d = [] then acc
                       else AList.update key d acc)
             (own_keys rhs) deletedValues))"
    using assms by (subst difference.simps) (simp only: strict_eq_def if_False simp_thms)
  then show ?thesis
    unfolding f1 f2 by (simp only: Let_def [of "fold _ _ _"])
qed

lemma deleted_indices:
  "List.map_filter (\<lambda>k. map_option (Pair k) (if has_own (Arr w) k then None else Some Undefined))
     (map index_key [0 ..< n])
   = map (\<lambda>j. (index_key j, Undefined)) [length w ..< n]"
proof -
  have "List.map_filter (\<lambda>k. map_option (Pair k) (if has_own (Arr w) k then None else Some Undefined))
          (map index_key [0 ..< n])
        = List.map_filter (\<lambda>j. if length w \<le> j then Some (index_key j, Undefined) else None) [0 ..< n]"
    by (rule map_filter_map_cong) (simp add: has_own_Arr)
  also have "\<dots> = map (\<lambda>j. (index_key j, Undefined)) (filter (\<lambda>j. length w \<le> j) [0 ..< n])"
    by (induction n) (simp_all add: List.map_filter_simps List.map_filter_def)
  finally show ?thesis by (simp add: filter_upt_ge)
qed

lemma difference_Arr:
  assumes "b \<noteq> w"
  shows "difference (Arr b) (Arr w) =
     Obj (map (\<lambda>j. (index_key j, Undefined)) [length w ..< length b]
          @ List.map_filter (\<lambda>j.
               if length b \<le> j then Some (index_key j, w ! j)
               else (let d = difference (b ! j) (w ! j)
                     in if isObject d \<and> own_keys d = [] then None else Some (index_key j, d)))
             [0 ..< length w])"
proof -
  let ?f1 = "\<lambda>k. if has_own (Arr w) k then None else Some Undefined"
  let ?f2 = "\<lambda>key. if \<not> has_own (Arr b) key then Some (read_prop (Arr w) key)
                  else let d = difference (read_prop (Arr b) key) (read_prop (Arr w) key)
                       in if isObject d \<and> own_keys d = [] then None else Some d"
  let ?del = "map (\<lambda>j. (index_key j, Undefined)) [length w ..< length b]"
  have del: "fold (\<lambda>key acc. case ?f1 key of None \<Rightarrow> acc | Some v \<Rightarrow> AList.update key v acc)
               (own_keys (Arr b)) [] = ?del"
    using fold_update_fresh [of "map index_key [0 ..< length b]" "[]" ?f1]
    by (simp add: own_keys_Arr distinct_index_keys deleted_indices)
  have disj: "set (map index_key [0 ..< length w]) \<inter> fst ` set ?del = {}"
    by (auto simp: image_iff index_key_eq_iff)
  have kept: "List.map_filter (\<lambda>k. map_option (Pair k) (?f2 k)) (map index_key [0 ..< length w])
      = List.map_filter (\<lambda>j.
               if length b \<le> j then Some (index_key j, w ! j)
               else (let d = difference (b ! j) (w ! j)
                     in if isObject d \<and> own_keys d = [] then None else Some (index_key j, d)))
             [0 ..< length w]"
    by (rule map_filter_map_cong) (auto simp: has_own_Arr read_prop_Arr Let_def)
  have "difference (Arr b) (Arr w) =
     Obj (fold (\<lambda>key acc. case ?f2 key of None \<Rightarrow> acc | Some v \<Rightarrow> AList.update key v acc)
          (own_keys (Arr w)) ?del)"
    using assms by (simp only: difference_unfold_objects [of "Arr b" "Arr w"] jsval.inject isObject.simps del simp_thms)
  also have "\<dots> = Obj (?del @ List.map_filter (\<lambda>k. map_option (Pair k) (?f2 k)) (map index_key [0 ..< length w]))"
    using fold_update_fresh [of "map index_key [0 ..< length w]" ?del ?f2] disj
    by (simp only: own_keys_Arr distinct_index_keys simp_thms)
  finally show ?thesis by (simp only: kept)
qed


subsection \<open>What the differ reports\<close>

lemma not_changed_same: "\<not> changed v v"
  by (simp add: changed_def difference_same own_keys_def)




text \<open>
  The shape matters: the differ takes an empty object for no difference, also where it is
  the new value of a field that held a plain value.
\<close>

lemma not_changed_to_empty_object: "\<not> changed (Obj [(''a'', Str ''x'')]) (Obj [(''a'', Obj [])])"
  by code_simp

subsection \<open>Lists of different lengths\<close>

text \<open>
  C9, as the code has it. The differ has no notion of alignment and raises nothing: for a
  loaded list and a working list of different lengths \<open>diff\<close> returns a difference, in which
  every index that only the loaded list has is mapped to \<^verbatim>\<open>undefined\<close> and every index that
  only the working list has is mapped to the whole column added there.
\<close>

theorem diff_length_mismatch:
  assumes "length b \<noteq> length w"
  shows "\<exists>kvs. diff b w = Obj kvs
          \<and> (\<forall>j. length w \<le> j \<and> j < length b \<longrightarrow> map_of kvs (index_key j) = Some Undefined)
          \<and> (\<forall>j. length b \<le> j \<and> j < length w \<longrightarrow> map_of kvs (index_key j) = Some (w ! j))"
proof -
  let ?del = "map (\<lambda>j. (index_key j, Undefined)) [length w ..< length b]"
  let ?f = "\<lambda>j. if length b \<le> j then Some (index_key j, w ! j)
               else (let d = difference (b ! j) (w ! j)
                     in if isObject d \<and> own_keys d = [] then None else Some (index_key j, d))"
  let ?kept = "List.map_filter ?f [0 ..< length w]"
  from assms have "b \<noteq> w" by auto
  then have eq: "diff b w = Obj (?del @ ?kept)"
    unfolding diff_def by (rule difference_Arr)
  have keys: "\<forall>x \<in> set [0 ..< length w]. \<forall>y. ?f x = Some y \<longrightarrow> fst y = index_key x"
    by (auto simp: Let_def split: if_splits)
  have dist: "distinct (map index_key [0 ..< length w])"
    by (rule distinct_index_keys)
  have deleted: "map_of (?del @ ?kept) (index_key j) = Some Undefined"
    if "length w \<le> j" "j < length b" for j
  proof -
    have "(index_key j, Undefined) \<in> set ?del" using that by auto
    moreover have "distinct (map fst ?del)"
      by (simp add: comp_def distinct_map inj_on_def index_key_eq_iff)
    ultimately have "map_of ?del (index_key j) = Some Undefined"
      by (rule map_of_is_SomeI [rotated])
    then show ?thesis by (simp add: map_add_find_right)
  qed
  have added: "map_of (?del @ ?kept) (index_key j) = Some (w ! j)"
    if "length b \<le> j" "j < length w" for j
  proof -
    from that have "?del @ ?kept = ?kept" by simp
    moreover have "map_of ?kept (index_key j) = Some (w ! j)"
      using that by (intro map_of_map_filter [OF keys dist, of j]) simp_all
    ultimately show ?thesis by (simp only:)
  qed
  from eq deleted added show ?thesis by blast
qed

theorem diff_length_mismatch_witness:
  "\<exists>kvs. diff [Obj [(''name'', Str ''id'')]] [Obj [(''name'', Str ''id'')], Obj [(''name'', Str ''email'')]] = Obj kvs
         \<and> map_of kvs (index_key 1) = Some (Obj [(''name'', Str ''email'')])"
proof -
  have "length [Obj [(''name'', Str ''id'')]] \<noteq> length [Obj [(''name'', Str ''id'')], Obj [(''name'', Str ''email'')]]"
    by simp
  from diff_length_mismatch [OF this] obtain kvs where
    d: "diff [Obj [(''name'', Str ''id'')]] [Obj [(''name'', Str ''id'')], Obj [(''name'', Str ''email'')]] = Obj kvs"
    and a: "\<forall>j. length [Obj [(''name'', Str ''id'')]] \<le> j
               \<and> j < length [Obj [(''name'', Str ''id'')], Obj [(''name'', Str ''email'')]]
             \<longrightarrow> map_of kvs (index_key j)
                 = Some ([Obj [(''name'', Str ''id'')], Obj [(''name'', Str ''email'')]] ! j)"
    by blast
  from a [rule_format, of 1] have "map_of kvs (index_key 1) = Some (Obj [(''name'', Str ''email'')])"
    by simp
  with d show ?thesis by blast
qed

text \<open>
  C9 as stated fails: the loaded list has two columns, the working list one, and the result
  is the difference that maps index 1 to \<^verbatim>\<open>undefined\<close>, not an error.
\<close>

theorem diff_length_mismatch_counterexample:
  "length [Obj [(''name'', Str ''id'')], Obj [(''name'', Str ''email'')]] \<noteq> length [Obj [(''name'', Str ''id'')]]
   \<and> diff [Obj [(''name'', Str ''id'')], Obj [(''name'', Str ''email'')]] [Obj [(''name'', Str ''id'')]]
     = Obj [(''1'', Undefined)]"
  by code_simp

subsection \<open>Aligned lists\<close>

lemma diff_aligned:
  assumes "length b = length w"
  shows "diff b w =
     Obj (List.map_filter (\<lambda>j. if changed (b ! j) (w ! j)
                                then Some (index_key j, difference (b ! j) (w ! j)) else None)
            [0 ..< length w])"
proof (cases "b = w")
  case True
  have "List.map_filter (\<lambda>j. if changed (w ! j) (w ! j)
                                then Some (index_key j, difference (w ! j) (w ! j)) else None)
            [0 ..< n] = []" for n
    by (induction n) (simp_all add: List.map_filter_def not_changed_same)
  then show ?thesis unfolding True by (simp add: diff_def difference_same)
next
  case False
  have "List.map_filter (\<lambda>j.
               if length b \<le> j then Some (index_key j, w ! j)
               else (let d = difference (b ! j) (w ! j)
                     in if isObject d \<and> own_keys d = [] then None else Some (index_key j, d)))
             [0 ..< length w]
      = List.map_filter (\<lambda>j. if changed (b ! j) (w ! j)
                                then Some (index_key j, difference (b ! j) (w ! j)) else None)
            [0 ..< length w]"
    using assms by (intro map_filter_cong) (simp add: changed_def Let_def)
  with difference_Arr [OF False] assms show ?thesis
    by (simp add: diff_def)
qed

lemma own_keys_diff_aligned:
  assumes "length b = length w"
  shows "index_key j \<in> set (own_keys (diff b w)) \<longleftrightarrow> j < length w \<and> changed (b ! j) (w ! j)"
proof -
  have "own_keys (diff b w) = map index_key (filter (\<lambda>j. changed (b ! j) (w ! j)) [0 ..< length w])"
    unfolding diff_aligned [OF assms] own_keys_def own_props.simps
    by (subst map_fst_map_filter [where k = index_key]) (auto intro: filter_cong)
  then show ?thesis by (auto simp: index_key_eq_iff)
qed

lemma read_prop_diff_aligned:
  assumes "length b = length w" and "j < length w" and "changed (b ! j) (w ! j)"
  shows "read_prop (diff b w) (index_key j) = difference (b ! j) (w ! j)"
proof -
  let ?f = "\<lambda>j. if changed (b ! j) (w ! j)
                                then Some (index_key j, difference (b ! j) (w ! j)) else None"
  have "map_of (List.map_filter ?f [0 ..< length w]) (index_key j) = Some (difference (b ! j) (w ! j))"
    using assms(2,3)
    by (intro map_of_map_filter [where k = index_key and x = j])
       (auto simp: distinct_index_keys split: if_splits)
  then show ?thesis
    by (simp add: diff_aligned [OF assms(1)] read_prop_def)
qed

section \<open>Properties of the change set\<close>

subsection \<open>The entry of a column\<close>

lemma is_column_defined: "is_column c \<Longrightarrow> c \<noteq> Undefined \<and> c \<noteq> Null \<and> truthy c"
  by (cases c) (simp_all add: is_column_def)

lemma is_column_baseOptions:
  "is_column c \<Longrightarrow> read_prop c ''baseOptions'' \<noteq> Undefined \<and> read_prop c ''baseOptions'' \<noteq> Null"
  by (cases "read_prop c ''baseOptions''") (simp_all add: is_column_def)


lemma changesObject_column:
  assumes "is_column c" and "d \<noteq> Undefined" and "d \<noteq> Null"
  shows "changesObject d c =
     Inr (Obj (AList.update ''fieldOptions'' (Obj (own_props (read_prop d ''fieldOptions'')))
               (AList.update ''baseOptions''
                  (Obj (AList.update ''visibility'' (read_prop (read_prop c ''baseOptions'') ''visibility'')
                          (own_props (read_prop d ''baseOptions''))))
                  (own_props d))))"
  using assms is_column_defined [OF assms(1)] is_column_baseOptions [OF assms(1)]
  by (simp add: changesObject_def get_prop_defined)

lemma changesObject_visibility:
  assumes "is_column c" and "d \<noteq> Undefined" and "d \<noteq> Null"
  shows "read_prop (read_prop (projr (changesObject d c)) ''baseOptions'') ''visibility''
         = read_prop (read_prop c ''baseOptions'') ''visibility''"
  by (simp add: changesObject_column [OF assms] read_prop_update_same read_prop_update_other)

lemma changesObject_fieldOptions:
  assumes "is_column c" and "d \<noteq> Undefined" and "d \<noteq> Null"
  shows "read_prop (projr (changesObject d c)) ''fieldOptions'' = Obj (own_props (read_prop d ''fieldOptions''))"
  by (simp add: changesObject_column [OF assms] read_prop_update_same)

lemma change_entry_column:
  assumes "j < length w" and "is_column (w ! j)" and "d \<noteq> Undefined" and "d \<noteq> Null"
  shows "change_entry w (index_key j, d) = Inr (column_name (w ! j), projr (changesObject d (w ! j)))"
  using assms is_column_defined [OF assms(2)]
  by (simp add: change_entry_def parseInt10_index_key at_index_def column_name_def Let_def
        changesObject_column [OF assms(2,3,4)])

lemma changes_aligned:
  assumes "length b = length w" and "\<forall>c \<in> set w. is_column c"
  shows "changes (diff b w) w =
     Inr (Obj (fromEntries
       (map (\<lambda>j. (column_name (w ! j), projr (changesObject (difference (b ! j) (w ! j)) (w ! j))))
          (filter (\<lambda>j. changed (b ! j) (w ! j)) [0 ..< length w]))))"
proof -
  let ?F = "\<lambda>j. if changed (b ! j) (w ! j)
                                then Some (index_key j, difference (b ! j) (w ! j)) else None"
  let ?g = "\<lambda>j. (column_name (w ! j), projr (changesObject (difference (b ! j) (w ! j)) (w ! j)))"
  have step: "\<forall>x \<in> set [0 ..< length w]. \<forall>y. ?F x = Some y \<longrightarrow> change_entry w y = Inr (?g x)"
  proof (intro ballI allI impI)
    fix j y assume j: "j \<in> set [0 ..< length w]" and y: "?F j = Some y"
    from j have lt: "j < length w" by simp
    with assms(2) have col: "is_column (w ! j)" by simp
    from y have yeq: "y = (index_key j, difference (b ! j) (w ! j))"
      by (simp split: if_splits)
    from is_column_defined [OF col] have "difference (b ! j) (w ! j) \<noteq> Undefined \<and> difference (b ! j) (w ! j) \<noteq> Null"
      by (intro difference_defined) simp_all
    with lt col show "change_entry w y = Inr (?g j)"
      unfolding yeq by (intro change_entry_column) simp_all
  qed
  have flt: "filter (\<lambda>x. ?F x \<noteq> None) [0 ..< length w] = filter (\<lambda>j. changed (b ! j) (w ! j)) [0 ..< length w]"
    by (intro filter_cong) simp_all
  have "map_result (change_entry w) (List.map_filter ?F [0 ..< length w])
        = Inr (map ?g (filter (\<lambda>j. changed (b ! j) (w ! j)) [0 ..< length w]))"
    using map_result_map_filter [OF step] by (simp only: flt)
  then show ?thesis
    by (simp add: changes_def entries_def diff_aligned [OF assms(1)])
qed

lemma changes_aligned_distinct:
  assumes "length b = length w" and "\<forall>c \<in> set w. is_column c" and "distinct (map column_name w)"
  shows "changes (diff b w) w =
     Inr (Obj (map (\<lambda>j. (column_name (w ! j), projr (changesObject (difference (b ! j) (w ! j)) (w ! j))))
          (filter (\<lambda>j. changed (b ! j) (w ! j)) [0 ..< length w])))"
proof -
  have "map (\<lambda>j. column_name (w ! j)) [0 ..< length w] = map column_name w"
    by (rule nth_equalityI) simp_all
  with assms(3) have "distinct (map (\<lambda>j. column_name (w ! j)) [0 ..< length w])" by simp
  then have "distinct (map (\<lambda>j. column_name (w ! j)) (filter (\<lambda>j. changed (b ! j) (w ! j)) [0 ..< length w]))"
    by (rule distinct_map_filter)
  then show ?thesis
    by (simp add: changes_aligned [OF assms(1,2)] fromEntries_distinct comp_def)
qed

lemma changes_entry_lookup:
  assumes "length b = length w" and "\<forall>c \<in> set w. is_column c" and "distinct (map column_name w)"
    and "j < length w" and "changed (b ! j) (w ! j)"
  shows "\<exists>ps. changes (diff b w) w = Inr (Obj ps)
          \<and> map_of ps (column_name (w ! j)) = Some (projr (changesObject (difference (b ! j) (w ! j)) (w ! j)))"
proof -
  let ?g = "\<lambda>j. (column_name (w ! j), projr (changesObject (difference (b ! j) (w ! j)) (w ! j)))"
  let ?ps = "map ?g (filter (\<lambda>j. changed (b ! j) (w ! j)) [0 ..< length w])"
  have "map (\<lambda>j. column_name (w ! j)) [0 ..< length w] = map column_name w"
    by (rule nth_equalityI) simp_all
  with assms(3) have "distinct (map (\<lambda>j. column_name (w ! j)) [0 ..< length w])" by simp
  then have "distinct (map (\<lambda>j. column_name (w ! j)) (filter (\<lambda>j. changed (b ! j) (w ! j)) [0 ..< length w]))"
    by (rule distinct_map_filter)
  then have dist: "distinct (map fst ?ps)" by (simp add: comp_def)
  have "?g j \<in> set ?ps" using assms(4,5) by simp
  with dist have "map_of ?ps (column_name (w ! j)) = Some (projr (changesObject (difference (b ! j) (w ! j)) (w ! j)))"
    by (intro map_of_is_SomeI) simp_all
  with changes_aligned_distinct [OF assms(1,2,3)] show ?thesis by blast
qed

subsection \<open>Visibility\<close>

text \<open>
  C6. The loaded and the working list are aligned lists of columns with distinct names. For
  every column index that appears in the difference, the entry of the change set under the
  name of that working column carries, as \<^verbatim>\<open>baseOptions.visibility\<close>, the current visibility of
  the working column, whatever the delta of the column holds.
\<close>

theorem visibility_forced:
  assumes "length b = length w" and "\<forall>c \<in> set w. is_column c" and "distinct (map column_name w)"
    and "index_key j \<in> set (own_keys (diff b w))"
  shows "\<exists>cs. changes (diff b w) w = Inr cs \<and> has_own cs (column_name (w ! j))
          \<and> read_prop (read_prop (read_prop cs (column_name (w ! j))) ''baseOptions'') ''visibility''
            = read_prop (read_prop (w ! j) ''baseOptions'') ''visibility''"
proof -
  from assms(4) have j: "j < length w" and ch: "changed (b ! j) (w ! j)"
    by (simp_all add: own_keys_diff_aligned [OF assms(1)])
  from assms(2) j have col: "is_column (w ! j)" by simp
  have d: "difference (b ! j) (w ! j) \<noteq> Undefined \<and> difference (b ! j) (w ! j) \<noteq> Null"
    using is_column_defined [OF col] by (intro difference_defined) simp_all
  from changes_entry_lookup [OF assms(1,2,3) j ch] obtain ps where
    ps: "changes (diff b w) w = Inr (Obj ps)"
    and e: "map_of ps (column_name (w ! j)) = Some (projr (changesObject (difference (b ! j) (w ! j)) (w ! j)))"
    by blast
  from e have "read_prop (Obj ps) (column_name (w ! j)) = projr (changesObject (difference (b ! j) (w ! j)) (w ! j))"
    by (simp add: read_prop_def)
  with ps d has_own_lookup [OF e] show ?thesis
    by (simp add: changesObject_visibility [OF col])
qed

theorem visibility_forced_witness:
  "\<exists>cs. changes
           (diff [Obj [(''name'', Str ''id''), (''baseOptions'', Obj [(''visibility'', Arr [Str ''index''])])],
                  Obj [(''name'', Str ''email''),
                       (''baseOptions'', Obj [(''label'', Str ''Mail''), (''visibility'', Arr [Str ''index'', Str ''show''])])]]
                 [Obj [(''name'', Str ''id''), (''baseOptions'', Obj [(''visibility'', Arr [Str ''index''])])],
                  Obj [(''name'', Str ''email''),
                       (''baseOptions'', Obj [(''label'', Str ''E-mail''), (''visibility'', Arr [Str ''index'', Str ''show''])])]])
           [Obj [(''name'', Str ''id''), (''baseOptions'', Obj [(''visibility'', Arr [Str ''index''])])],
            Obj [(''name'', Str ''email''),
                 (''baseOptions'', Obj [(''label'', Str ''E-mail''), (''visibility'', Arr [Str ''index'', Str ''show''])])]]
         = Inr cs \<and> has_own cs ''email''
       \<and> read_prop (read_prop (read_prop cs ''email'') ''baseOptions'') ''visibility'' = Arr [Str ''index'', Str ''show'']"
proof -
  let ?b = "[Obj [(''name'', Str ''id''), (''baseOptions'', Obj [(''visibility'', Arr [Str ''index''])])],
             Obj [(''name'', Str ''email''),
                  (''baseOptions'', Obj [(''label'', Str ''Mail''), (''visibility'', Arr [Str ''index'', Str ''show''])])]]"
  let ?w = "[Obj [(''name'', Str ''id''), (''baseOptions'', Obj [(''visibility'', Arr [Str ''index''])])],
             Obj [(''name'', Str ''email''),
                  (''baseOptions'', Obj [(''label'', Str ''E-mail''), (''visibility'', Arr [Str ''index'', Str ''show''])])]]"
  have len: "length ?b = length ?w" by simp
  have cols: "\<forall>c \<in> set ?w. is_column c" by (simp add: is_column_def read_prop_def)
  have names: "distinct (map column_name ?w)" by (simp add: column_name_def read_prop_def)
  have idx: "index_key 1 \<in> set (own_keys (diff ?b ?w))" by code_simp
  from visibility_forced [OF len cols names idx] show ?thesis
    by (simp add: column_name_def read_prop_def)
qed

subsection \<open>Field options\<close>

text \<open>
  C4, as the code has it. For every column index that appears in the difference, the
  \<^verbatim>\<open>fieldOptions\<close> of the entry of that column is a copy of the \<^verbatim>\<open>fieldOptions\<close> of the column's
  delta: the fields of \<^verbatim>\<open>fieldOptions\<close> that changed, and no others (the empty object when none
  changed).
\<close>

theorem fieldOptions_from_delta:
  assumes "length b = length w" and "\<forall>c \<in> set w. is_column c" and "distinct (map column_name w)"
    and "index_key j \<in> set (own_keys (diff b w))"
  shows "\<exists>cs. changes (diff b w) w = Inr cs \<and> has_own cs (column_name (w ! j))
          \<and> read_prop (read_prop cs (column_name (w ! j))) ''fieldOptions''
            = Obj (own_props (read_prop (read_prop (diff b w) (index_key j)) ''fieldOptions''))"
proof -
  from assms(4) have j: "j < length w" and ch: "changed (b ! j) (w ! j)"
    by (simp_all add: own_keys_diff_aligned [OF assms(1)])
  from assms(2) j have col: "is_column (w ! j)" by simp
  have d: "difference (b ! j) (w ! j) \<noteq> Undefined \<and> difference (b ! j) (w ! j) \<noteq> Null"
    using is_column_defined [OF col] by (intro difference_defined) simp_all
  from changes_entry_lookup [OF assms(1,2,3) j ch] obtain ps where
    ps: "changes (diff b w) w = Inr (Obj ps)"
    and e: "map_of ps (column_name (w ! j)) = Some (projr (changesObject (difference (b ! j) (w ! j)) (w ! j)))"
    by blast
  from e have "read_prop (Obj ps) (column_name (w ! j)) = projr (changesObject (difference (b ! j) (w ! j)) (w ! j))"
    by (simp add: read_prop_def)
  with ps d has_own_lookup [OF e] show ?thesis
    by (simp add: changesObject_fieldOptions [OF col] read_prop_diff_aligned [OF assms(1) j ch])
qed

theorem fieldOptions_from_delta_witness:
  "\<exists>cs. changes
           (diff [Obj [(''name'', Str ''notes''), (''baseOptions'', Obj [(''visibility'', Arr [Str ''index''])]),
                       (''fieldOptions'', Obj [(''rows'', Num 5), (''cols'', Num 3)])]]
                 [Obj [(''name'', Str ''notes''), (''baseOptions'', Obj [(''visibility'', Arr [Str ''index''])]),
                       (''fieldOptions'', Obj [(''rows'', Num 5), (''cols'', Num 4)])]])
           [Obj [(''name'', Str ''notes''), (''baseOptions'', Obj [(''visibility'', Arr [Str ''index''])]),
                 (''fieldOptions'', Obj [(''rows'', Num 5), (''cols'', Num 4)])]]
         = Inr cs \<and> has_own cs ''notes''
       \<and> read_prop (read_prop cs ''notes'') ''fieldOptions'' = Obj [(''cols'', Num 4)]"
proof -
  let ?b = "[Obj [(''name'', Str ''notes''), (''baseOptions'', Obj [(''visibility'', Arr [Str ''index''])]),
                  (''fieldOptions'', Obj [(''rows'', Num 5), (''cols'', Num 3)])]]"
  let ?w = "[Obj [(''name'', Str ''notes''), (''baseOptions'', Obj [(''visibility'', Arr [Str ''index''])]),
                  (''fieldOptions'', Obj [(''rows'', Num 5), (''cols'', Num 4)])]]"
  have len: "length ?b = length ?w" by simp
  have cols: "\<forall>c \<in> set ?w. is_column c" by (simp add: is_column_def read_prop_def)
  have names: "distinct (map column_name ?w)" by (simp add: column_name_def read_prop_def)
  have idx: "index_key 0 \<in> set (own_keys (diff ?b ?w))" by code_simp
  have delta: "own_props (read_prop (read_prop (diff ?b ?w) (index_key 0)) ''fieldOptions'') = [(''cols'', Num 4)]"
    by code_simp
  from fieldOptions_from_delta [OF len cols names idx] show ?thesis
    by (simp add: column_name_def read_prop_def [of "Obj [(''name'', _), _, _]"] delta)
qed

text \<open>
  C4 as stated fails. The field \<^verbatim>\<open>cols\<close> of \<^verbatim>\<open>fieldOptions\<close> changes from 3 to 4, so a path of
  \<^verbatim>\<open>fieldOptions\<close> is in the delta of the column; the entry of the change set holds
  \<^verbatim>\<open>fieldOptions: {cols: 4}\<close>, while the current \<^verbatim>\<open>fieldOptions\<close> of the working column are
  \<^verbatim>\<open>{rows: 5, cols: 4}\<close>.
\<close>

theorem fieldOptions_full_counterexample:
  "read_prop (diff [Obj [(''name'', Str ''notes''), (''baseOptions'', Obj [(''visibility'', Arr [Str ''index''])]),
                         (''fieldOptions'', Obj [(''rows'', Num 5), (''cols'', Num 3)])]]
                   [Obj [(''name'', Str ''notes''), (''baseOptions'', Obj [(''visibility'', Arr [Str ''index''])]),
                         (''fieldOptions'', Obj [(''rows'', Num 5), (''cols'', Num 4)])]]) ''0''
     = Obj [(''fieldOptions'', Obj [(''cols'', Num 4)])]
   \<and> changes
         (diff [Obj [(''name'', Str ''notes''), (''baseOptions'', Obj [(''visibility'', Arr [Str ''index''])]),
                     (''fieldOptions'', Obj [(''rows'', Num 5), (''cols'', Num 3)])]]
               [Obj [(''name'', Str ''notes''), (''baseOptions'', Obj [(''visibility'', Arr [Str ''index''])]),
                     (''fieldOptions'', Obj [(''rows'', Num 5), (''cols'', Num 4)])]])
         [Obj [(''name'', Str ''notes''), (''baseOptions'', Obj [(''visibility'', Arr [Str ''index''])]),
               (''fieldOptions'', Obj [(''rows'', Num 5), (''cols'', Num 4)])]]
     = Inr (Obj [(''notes'',
                  Obj [(''fieldOptions'', Obj [(''cols'', Num 4)]),
                       (''baseOptions'', Obj [(''visibility'', Arr [Str ''index''])])])])"
  by code_simp

subsection \<open>One changed column\<close>





subsection \<open>Null values\<close>

text \<open>
  C3 at the scenario of the spec. The loaded \<^verbatim>\<open>email\<close> column has no null values; in the working
  list it is nullable with the null values \<^verbatim>\<open>[""]\<close>. The entry of the change set carries the
  visibility as the whole array, and the null values as the object \<^verbatim>\<open>{"0": ""}\<close>, the
  difference of the two arrays by index.
\<close>

theorem nullValues_by_index:
  "changes
     (diff [Obj [(''name'', Str ''id''),
                 (''baseOptions'', Obj [(''required'', Bool True), (''nullable'', Bool False), (''nullValues'', Arr []),
                                        (''visibility'', Arr [Str ''index'', Str ''show''])])],
            Obj [(''name'', Str ''email''),
                 (''baseOptions'', Obj [(''required'', Bool False), (''nullable'', Bool False), (''nullValues'', Arr []),
                                        (''visibility'', Arr [Str ''index'', Str ''show''])])]]
           [Obj [(''name'', Str ''id''),
                 (''baseOptions'', Obj [(''required'', Bool True), (''nullable'', Bool False), (''nullValues'', Arr []),
                                        (''visibility'', Arr [Str ''index'', Str ''show''])])],
            Obj [(''name'', Str ''email''),
                 (''baseOptions'', Obj [(''required'', Bool False), (''nullable'', Bool True), (''nullValues'', Arr [Str []]),
                                        (''visibility'', Arr [Str ''index'', Str ''show''])])]])
     [Obj [(''name'', Str ''id''),
           (''baseOptions'', Obj [(''required'', Bool True), (''nullable'', Bool False), (''nullValues'', Arr []),
                                  (''visibility'', Arr [Str ''index'', Str ''show''])])],
      Obj [(''name'', Str ''email''),
           (''baseOptions'', Obj [(''required'', Bool False), (''nullable'', Bool True), (''nullValues'', Arr [Str []]),
                                  (''visibility'', Arr [Str ''index'', Str ''show''])])]]
   = Inr (Obj [(''email'',
                Obj [(''baseOptions'',
                      Obj [(''nullable'', Bool True),
                           (''nullValues'', Obj [(''0'', Str [])]),
                           (''visibility'', Arr [Str ''index'', Str ''show''])]),
                     (''fieldOptions'', Obj [])])])"
  by code_simp

section \<open>Properties of setting an option\<close>

subsection \<open>Option paths\<close>

lemma newColumn_object:
  "newColumn (Obj kvs) name val =
     Inr (let segments = split_dot name
          in if length segments = 2 \<and> segments ! 0 \<noteq> []
             then Obj (AList.update (segments ! 0)
                         (Obj (AList.update (segments ! 1) val (own_props (read_prop (Obj kvs) (segments ! 0)))))
                         kvs)
             else Obj (AList.update (if length segments = 2 then segments ! 1 else name) val kvs))"
  by (simp add: newColumn_def Let_def get_prop_Obj)

text \<open>
  C8, as the code has it. \<^verbatim>\<open>setColumnOption\<close> checks no path. For every column object, every
  option name and every value it builds the new column and stores the value: for a name of
  two segments with a non-empty first one, in the field named by the second segment of the
  namespace named by the first; otherwise in the field of the column named by the name (by
  its second segment, when it has two and the first is empty).
\<close>

theorem newColumn_applies_any_path:
  "\<exists>nc. newColumn (Obj kvs) name val = Inr nc
        \<and> (if length (split_dot name) = 2 \<and> split_dot name ! 0 \<noteq> []
           then read_prop (read_prop nc (split_dot name ! 0)) (split_dot name ! 1) = val
           else read_prop nc (if length (split_dot name) = 2 then split_dot name ! 1 else name) = val)"
  by (simp add: newColumn_object Let_def read_prop_update_same)

theorem newColumn_applies_any_path_witness:
  "\<exists>nc. newColumn (Obj [(''name'', Str ''id'')]) ''nonsense.path'' (Num 1) = Inr nc
        \<and> read_prop (read_prop nc ''nonsense'') ''path'' = Num 1"
  using newColumn_applies_any_path [of "[(''name'', Str ''id'')]" "''nonsense.path''" "Num 1"]
  by simp

text \<open>
  A name of two segments whose first is empty is written under its second segment, not
  under the name.
\<close>

lemma newColumn_empty_namespace:
  "newColumn (Obj [(''name'', Str ''id'')]) ''.x'' (Num 1) = Inr (Obj [(''name'', Str ''id''), (''x'', Num 1)])"
  by code_simp

text \<open>
  C8 as stated fails: \<^verbatim>\<open>nonsense.path\<close> is no field of a column, and the column comes back with
  the value stored under it.
\<close>

theorem newColumn_unknown_path_counterexample:
  "\<not> known_path ''nonsense.path''
   \<and> newColumn (Obj [(''name'', Str ''id''), (''baseOptions'', Obj [(''required'', Bool True)])]) ''nonsense.path'' (Num 1)
     = Inr (Obj [(''name'', Str ''id''), (''baseOptions'', Obj [(''required'', Bool True)]),
                 (''nonsense'', Obj [(''path'', Num 1)])])"
  by code_simp

subsection \<open>Finding a column by its name\<close>







subsection \<open>A column that is not in the list\<close>

lemma newColumn_defined:
  assumes "col \<noteq> Undefined" and "col \<noteq> Null"
  shows "\<exists>kvs. newColumn col name val = Inr (Obj kvs)"
  using assms by (simp add: newColumn_def Let_def get_prop_defined)

lemma findIndex_no_match:
  assumes "col \<noteq> Undefined" and "col \<noteq> Null"
    and "\<forall>c \<in> set cs. c \<noteq> Undefined \<and> c \<noteq> Null \<and> read_prop c ''name'' \<noteq> read_prop col ''name''"
  shows "findIndex col cs = Inr None"
  using assms by (induction cs) (simp_all add: strict_eq_def get_prop_defined)

text \<open>
  C7. \<^verbatim>\<open>setColumnOption\<close> called with a column whose name is the name of no column of the
  working list sets no state and raises no error, whatever the option name and the value:
  the working list stays as it is. (The columns are objects: neither the argument nor an
  element of the list is \<^verbatim>\<open>undefined\<close> or \<^verbatim>\<open>null\<close>.)
\<close>

theorem setColumnOption_unknown_name:
  assumes "col \<noteq> Undefined" and "col \<noteq> Null"
    and "\<forall>c \<in> set (columns s). c \<noteq> Undefined \<and> c \<noteq> Null \<and> read_prop c ''name'' \<noteq> read_prop col ''name''"
  shows "setColumnOption s col name val = Inr None"
proof -
  obtain kvs where "newColumn col name val = Inr (Obj kvs)"
    using newColumn_defined [OF assms(1,2)] by blast
  moreover have "findIndex col (columns s) = Inr None"
    using assms by (rule findIndex_no_match)
  ultimately show ?thesis by (simp add: setColumnOption_def)
qed

theorem setColumnOption_unknown_name_witness:
  "setColumnOption
     \<lparr>columns = [Obj [(''name'', Str ''id'')], Obj [(''name'', Str ''email'')]],
      column = Obj [(''name'', Str ''id'')]\<rparr>
     (Obj [(''name'', Str ''phone'')]) ''baseOptions.required'' (Bool True) = Inr None"
  using setColumnOption_unknown_name
    [of "Obj [(''name'', Str ''phone'')]"
        "\<lparr>columns = [Obj [(''name'', Str ''id'')], Obj [(''name'', Str ''email'')]],
          column = Obj [(''name'', Str ''id'')]\<rparr>"
        "''baseOptions.required''" "Bool True"]
  by (simp add: read_prop_def)

subsection \<open>The column that replaces the edited one\<close>



section \<open>Properties of the constraint rules\<close>

subsection \<open>One rendering\<close>



lemma split_nullValues: "split_dot ''baseOptions.nullValues'' = [''baseOptions'', ''nullValues'']" by simp










subsection \<open>Required\<close>






subsection \<open>Nullable\<close>

text \<open>
  C2 at a required column without null values, on which \<^verbatim>\<open>Nullable\<close> is ticked. The second
  effect calls \<^verbatim>\<open>setColumnOption(column, "baseOptions.required", false)\<close> and then
  \<^verbatim>\<open>setColumnOption(column, "baseOptions.nullValues", [""])\<close>, both with the column of the
  rendering; the state of the second call replaces that of the first, and the column ends
  required and nullable.
\<close>

theorem nullable_keeps_required:
  "mutate (Suc (Suc fuel))
     \<lparr>columns = [Obj [(''name'', Str ''id''),
                      (''baseOptions'', Obj [(''required'', Bool True), (''nullable'', Bool False), (''nullValues'', Arr [])])]],
      column = Obj [(''name'', Str ''id''),
                    (''baseOptions'', Obj [(''required'', Bool True), (''nullable'', Bool False), (''nullValues'', Arr [])])]\<rparr>
     ''baseOptions.nullable'' (Bool True)
   = Some (Inr
       \<lparr>columns = [Obj [(''name'', Str ''id''),
                        (''baseOptions'', Obj [(''required'', Bool True), (''nullable'', Bool True), (''nullValues'', Arr [Str []])])]],
        column = Obj [(''name'', Str ''id''),
                      (''baseOptions'', Obj [(''required'', Bool True), (''nullable'', Bool True), (''nullValues'', Arr [Str []])])]\<rparr>)"
  by (simp add: mutate_def effect_deps_def run_effects_def required_effect_def nullable_effect_def
        setColumnOption_def newColumn_def get_prop_def read_prop_def strict_eq_def Let_def)

end
